theory Spec2Isabelle
  imports Main "HOL-Library.Signed_Division" "HOL-Library.Word"
begin

section \<open>The pager (pkg/pager/pager.go)\<close>

subsection \<open>Errors\<close>

text \<open>
  Every error value the pager and the join produce. \<open>ErrOS\<close> carries an error that the
  operating system returned and that the code passes on as it is; \<open>ErrClosed\<close> and
  \<open>ErrInvalid\<close> are the errors of a method called on a closed, respectively nil, file;
  \<open>Panicked\<close> stands for a Go panic, with its message.
\<close>

datatype error =
    ErrRanOutOfPages
  | ErrCorrupted
  | ErrPinnedOnClose
  | ErrPinCountNegative
  | ErrClosed
  | ErrInvalid
  | ErrCancelled
  | ErrOS string
  | Panicked string

text \<open>Whether a result is a panic.\<close>

definition is_panic :: "error option \<Rightarrow> bool" where
  "is_panic r = (case r of Some (Panicked s) \<Rightarrow> True | _ \<Rightarrow> False)"

subsection \<open>Pages\<close>

type_synonym byte = "8 word"

text \<open>Pagesize is directio.BlockSize, which is 4096 on every platform of the library.\<close>

definition Pagesize :: int where
  "Pagesize = 4096"

text \<open>The sentinel page number of a frame that holds no page.\<close>

definition NoPage :: int where
  "NoPage = - 1"

record page =
  pagenum :: int
  dirty :: bool
  pinCount :: int
  data :: "byte list"

text \<open>
  Modelled from the spec: Page.Put and Page.Get (page.go is not part of the sources).
  Put decrements the pin count and returns the resulting count; Get increments it.
\<close>

definition Put :: "page \<Rightarrow> int \<times> page" where
  "Put pg = (pinCount pg - 1, pg\<lparr>pinCount := pinCount pg - 1\<rparr>)"

definition Get :: "page \<Rightarrow> page" where
  "Get pg = pg\<lparr>pinCount := pinCount pg + 1\<rparr>"


subsection \<open>The backing file\<close>

text \<open>
  The file behind a pager, page by page: page \<open>i\<close> of \<open>fpages\<close> is the block at byte
  offset \<open>i * Pagesize\<close>. File.Close on a file that was closed before fails with
  \<open>ErrClosed\<close>; on an open file it gives what the operating system reports for the close,
  the parameter \<open>cerr\<close> (\<open>None\<close> when it succeeds), and the file is closed either way.
\<close>

record osfile =
  fname :: string
  fclosed :: bool
  fpages :: "byte list list"

definition file_Close :: "error option \<Rightarrow> osfile \<Rightarrow> error option \<times> osfile" where
  "file_Close cerr f = (if fclosed f then (Some ErrClosed, f) else (cerr, f\<lparr>fclosed := True\<rparr>))"

definition zero_page :: "byte list" where
  "zero_page = replicate (nat Pagesize) 0"

subsection \<open>The pager's state\<close>

text \<open>
  Modelled from the spec: the doubly-linked list of pkg/list (not part of the sources), a
  queue with stable handles. A link is a handle (its identity) together with the value it
  holds, here the index of a page frame (a page pointer); a list is the sequence of its
  links from head to tail. PushTail makes a new link at the tail, PeekHead gives the first
  link (nil for an empty list), PopSelf unlinks a link from the list it is in.
\<close>

type_synonym link = "nat \<times> nat"

record pager =
  pfile :: "osfile option"
  numPages :: int
  freeList :: "link list"
  unpinnedList :: "link list"
  pinnedList :: "link list"
  pageTable :: "int \<rightharpoonup> link"
  frames :: "page list"
  nextLink :: nat

definition PeekHead :: "link list \<Rightarrow> link option" where
  "PeekHead xs = (case xs of [] \<Rightarrow> None | l # _ \<Rightarrow> Some l)"

definition unlink :: "nat \<Rightarrow> link list \<Rightarrow> link list" where
  "unlink l xs = filter (\<lambda>x. fst x \<noteq> l) xs"

definition PopSelf :: "nat \<Rightarrow> pager \<Rightarrow> pager" where
  "PopSelf l p = p\<lparr>freeList := unlink l (freeList p),
                   unpinnedList := unlink l (unpinnedList p),
                   pinnedList := unlink l (pinnedList p)\<rparr>"

definition PushTail_free :: "nat \<Rightarrow> pager \<Rightarrow> pager" where
  "PushTail_free f p = p\<lparr>freeList := freeList p @ [(nextLink p, f)], nextLink := Suc (nextLink p)\<rparr>"

definition PushTail_unpinned :: "nat \<Rightarrow> pager \<Rightarrow> pager" where
  "PushTail_unpinned f p =
     p\<lparr>unpinnedList := unpinnedList p @ [(nextLink p, f)], nextLink := Suc (nextLink p)\<rparr>"

subsection \<open>PutPage\<close>

text \<open>
  PutPage(page): a page pointer is the index of its frame; an index outside the arena
  stands for a nil pointer, on which page.Put() panics. The lookup
  \<open>pager.pageTable[page.pagenum]\<close> gives nil when the page number has no entry, and
  link.PopSelf() on nil panics.
\<close>

definition move_to_unpinned :: "nat \<Rightarrow> int \<Rightarrow> nat \<Rightarrow> pager \<Rightarrow> pager" where
  "move_to_unpinned l pn f p =
     (let p2 = PopSelf l p;
          newLink = (nextLink p2, f);
          p3 = PushTail_unpinned f p2
      in p3\<lparr>pageTable := (pageTable p3)(pn \<mapsto> newLink)\<rparr>)"

definition PutPage :: "pager \<Rightarrow> nat \<Rightarrow> error option \<times> pager" where
  "PutPage p f =
     (if length (frames p) \<le> f then (Some (Panicked ''nil page''), p)
      else
        let ret = fst (Put (frames p ! f));
            pn = pagenum (frames p ! f);
            p1 = p\<lparr>frames := (frames p)[f := snd (Put (frames p ! f))]\<rparr>
        in if ret = 0 then
             (case pageTable p1 pn of
                None \<Rightarrow> (Some (Panicked ''nil link''), p1)
              | Some link \<Rightarrow> (None, move_to_unpinned (fst link) pn f p1))
           else if ret < 0 then (Some ErrPinCountNegative, p1)
           else (None, p1))"

subsection \<open>The functions that are not implemented\<close>

text \<open>
  In pager.go the bodies of newPage, GetNewPage, GetPage, FlushPage and FlushAllPages are
  \<open>panic("Not implemented yet")\<close>. The two that other code of the sources reaches are
  modelled as they are: a call panics and leaves the pager as it is. (FlushAllPages has no
  result in the source; the result here only says whether it panicked.)
\<close>

definition FlushAllPages :: "pager \<Rightarrow> error option \<times> pager" where
  "FlushAllPages p = (Some (Panicked ''Not implemented yet''), p)"

definition GetPage :: "pager \<Rightarrow> int \<Rightarrow> (error + nat) \<times> pager" where
  "GetPage p pn = (Inl (Panicked ''Not implemented yet''), p)"

subsection \<open>Close\<close>

text \<open>
  Close(): the mutex is not modelled, the pager is used by one caller here. A panic of
  FlushAllPages is a panic of Close; \<open>cerr\<close> is what the operating system reports when
  the open file is closed.
\<close>

definition Close :: "error option \<Rightarrow> pager \<Rightarrow> error option \<times> pager" where
  "Close cerr p =
     (case PeekHead (pinnedList p) of
        Some curLink \<Rightarrow> (Some ErrPinnedOnClose, p)
      | None \<Rightarrow>
          (case FlushAllPages p of
             (Some perr, p1) \<Rightarrow> (Some perr, p1)
           | (None, p1) \<Rightarrow>
               (case pfile p1 of
                  None \<Rightarrow> (Some ErrInvalid, p1)
                | Some fl \<Rightarrow>
                    (fst (file_Close cerr fl), p1\<lparr>pfile := Some (snd (file_Close cerr fl))\<rparr>))))"

subsection \<open>Open and New\<close>

text \<open>
  The operating system as Open sees it: the results of os.MkdirAll, directio.OpenFile
  (with O_RDWR|O_CREATE) and File.Stat (the size that info.Size() gives).
\<close>

record os_env =
  MkdirAll :: "string \<Rightarrow> error option"
  OpenFile :: "string \<Rightarrow> error + osfile"
  Stat :: "osfile \<Rightarrow> error + int"

text \<open>strings.LastIndex for a one-character separator: the last index of it, or -1.\<close>

definition LastIndex :: "string \<Rightarrow> char \<Rightarrow> int" where
  "LastIndex s c =
     (if c \<in> set s then int (length s) - 1 - int (length (takeWhile (\<lambda>x. x \<noteq> c) (rev s)))
      else - 1)"

text \<open>
  Open(filePath). The assignment \<open>pager.file, err = directio.OpenFile(...)\<close> stores the
  (nil) file also when opening fails. Go's \<open>%\<close> and \<open>/\<close> on int64 truncate towards zero:
  \<open>smod\<close> and \<open>sdiv\<close>. When Stat fails, \<open>len\<close> keeps its zero value.
\<close>

definition Open :: "os_env \<Rightarrow> pager \<Rightarrow> string \<Rightarrow> error option \<times> pager" where
  "Open os p filePath =
     (let idx = LastIndex filePath CHR ''/''
      in case (if idx \<noteq> - 1 then MkdirAll os (take (nat idx) filePath) else None) of
           Some err \<Rightarrow> (Some err, p)
         | None \<Rightarrow>
             (case OpenFile os filePath of
                Inl err \<Rightarrow> (Some err, p\<lparr>pfile := None\<rparr>)
              | Inr fl \<Rightarrow>
                  (case Stat os fl of
                     Inr len \<Rightarrow>
                       if len smod Pagesize \<noteq> 0 then (Some ErrCorrupted, p\<lparr>pfile := Some fl\<rparr>)
                       else (None, p\<lparr>pfile := Some fl, numPages := len sdiv Pagesize\<rparr>)
                   | Inl err \<Rightarrow> (None, p\<lparr>pfile := Some fl, numPages := 0 sdiv Pagesize\<rparr>))))"

text \<open>
  New(filePath), with config.MaxPagesInBuffer (not part of the sources) as the parameter
  \<open>n\<close>: every frame starts on the free list with page number NoPage and pin count 0.
\<close>

definition empty_pager :: pager where
  "empty_pager = \<lparr>pfile = None, numPages = 0, freeList = [], unpinnedList = [], pinnedList = [],
                   pageTable = Map.empty, frames = [], nextLink = 0\<rparr>"

definition new_frame :: page where
  "new_frame = \<lparr>pagenum = NoPage, dirty = False, pinCount = 0, data = zero_page\<rparr>"

definition add_frame :: "pager \<Rightarrow> pager" where
  "add_frame p = PushTail_free (length (frames p)) (p\<lparr>frames := frames p @ [new_frame]\<rparr>)"

definition New :: "os_env \<Rightarrow> nat \<Rightarrow> string \<Rightarrow> error + pager" where
  "New os n filePath =
     (case Open os ((add_frame ^^ n) empty_pager) filePath of
        (Some err, _) \<Rightarrow> Inl err
      | (None, p) \<Rightarrow> Inr p)"

text \<open>An operating system in which every call of Open succeeds, on files that start empty.\<close>

definition os_ok :: os_env where
  "os_ok = \<lparr>MkdirAll = (\<lambda>d. None),
            OpenFile = (\<lambda>n. Inr \<lparr>fname = n, fclosed = False, fpages = []\<rparr>),
            Stat = (\<lambda>fl. Inr (int (length (fpages fl)) * Pagesize))\<rparr>"

text \<open>
  One in which the file cannot be opened, one in which Stat fails, and one in which the
  directories cannot be made.
\<close>

definition os_denied :: os_env where
  "os_denied = os_ok\<lparr>OpenFile := (\<lambda>n. Inl (ErrOS ''permission denied''))\<rparr>"

definition os_stat_fails :: os_env where
  "os_stat_fails = os_ok\<lparr>Stat := (\<lambda>fl. Inl (ErrOS ''input/output error''))\<rparr>"

definition os_mkdir_fails :: os_env where
  "os_mkdir_fails = os_ok\<lparr>MkdirAll := (\<lambda>d. Some (ErrOS ''read-only file system''))\<rparr>"

subsection \<open>Sample pagers\<close>

text \<open>
  Pagers with one frame. \<open>pager_fresh\<close> is what New gives. \<open>pager_pinned\<close> is the same
  pager with page 0 in its frame, pinned once, on the pinned queue and in the page table:
  the state that the spec asks GetNewPage to leave; it is written out, since the
  GetNewPage of the sources panics. \<open>pager_unpinned\<close> is this pager after PutPage.
\<close>

definition pager_fresh :: pager where
  "pager_fresh = snd (Open os_ok (add_frame empty_pager) ''a.db'')"

definition pager_pinned :: pager where
  "pager_pinned =
     pager_fresh\<lparr>numPages := 1, freeList := [], pinnedList := [(1, 0)],
                 pageTable := [0 \<mapsto> (1, 0)],
                 frames := [new_frame\<lparr>pagenum := 0, pinCount := 1\<rparr>],
                 nextLink := 2\<rparr>"

definition pager_unpinned :: pager where
  "pager_unpinned = snd (PutPage pager_pinned 0)"

text \<open>
  What PutPage needs of the page it is given, in order not to panic: the page is a frame of
  the arena and its page number has an entry in the page table.
\<close>

definition put_ready :: "pager \<Rightarrow> nat \<Rightarrow> bool" where
  "put_ready q f = (f < length (frames q) \<and> pageTable q (pagenum (frames q ! f)) \<noteq> None)"

section \<open>The Grace hash join\<close>

subsection \<open>The hash table the join works on\<close>

text \<open>
  Modelled from the spec: the extendible hash table of pkg/hash (not part of the
  sources), as far as Join uses it. A table has a global depth, a directory of bucket page
  numbers and the pager its bucket pages live in. ExtendTable doubles the directory
  (every existing slot duplicated, each new slot pointing at the same bucket as before)
  and increments the global depth. GetBucketByPN fetches the bucket's backing page
  through the pager, that is with the pager's GetPage; a bucket is represented by its
  page. With the GetPage of the sources every call of GetBucketByPN panics.
\<close>

record hash_table =
  depth :: int
  buckets :: "int list"
  tpager :: pager

definition GetDepth :: "hash_table \<Rightarrow> int" where
  "GetDepth t = depth t"

definition GetBuckets :: "hash_table \<Rightarrow> int list" where
  "GetBuckets t = buckets t"

definition ExtendTable :: "hash_table \<Rightarrow> hash_table" where
  "ExtendTable t = t\<lparr>depth := depth t + 1, buckets := buckets t @ buckets t\<rparr>"

definition GetBucketByPN :: "hash_table \<Rightarrow> int \<Rightarrow> (error + nat) \<times> hash_table" where
  "GetBucketByPN t pn = (fst (GetPage (tpager t) pn), t\<lparr>tpager := snd (GetPage (tpager t) pn)\<rparr>)"

text \<open>
  The probe phase is stated for any GetBucketByPN: the parameter \<open>fetch\<close> of this type
  gives, for a table and a bucket page number, the fetched bucket or the error (a panic is
  the error \<open>Panicked\<close>), and the table after the call.
\<close>

type_synonym fetch = "hash_table \<Rightarrow> int \<Rightarrow> (error + nat) \<times> hash_table"

subsection \<open>Depth equalization\<close>

text \<open>The loop \<open>for leftHashTable.GetDepth() != rightHashTable.GetDepth()\<close> of Join.\<close>

function equalize :: "hash_table \<Rightarrow> hash_table \<Rightarrow> hash_table \<times> hash_table" where
  "equalize leftHashTable rightHashTable =
     (if GetDepth leftHashTable \<noteq> GetDepth rightHashTable then
        (if GetDepth leftHashTable < GetDepth rightHashTable
         then equalize (ExtendTable leftHashTable) rightHashTable
         else equalize leftHashTable (ExtendTable rightHashTable))
      else (leftHashTable, rightHashTable))"
  by pat_completeness auto
termination
  by (relation "measure (\<lambda>(l, r). nat \<bar>depth l - depth r\<bar>)")
     (auto simp: GetDepth_def ExtendTable_def)

declare equalize.simps [simp del]

subsection \<open>probeBuckets\<close>

text \<open>
  probeBuckets defers one PutPage for each bucket's page on the page's own pager and then
  probes. The probing itself is not part of the sources: it is the parameter \<open>body\<close>, which
  works on the two pagers and ends normally (\<open>None\<close>), with an error (a cancelled context
  gives \<open>ErrCancelled\<close>) or with a panic. The deferred calls run when the function leaves on
  any of these paths, the last deferred first; their error results are dropped, and a
  panic of a deferred call does not stop the other deferred call.
\<close>

definition probeBuckets ::
  "(pager \<times> pager \<Rightarrow> error option \<times> pager \<times> pager) \<Rightarrow> pager \<Rightarrow> pager \<Rightarrow> nat \<Rightarrow> nat
     \<Rightarrow> error option \<times> pager \<times> pager" where
  "probeBuckets body lPager rPager lBucket rBucket =
     (case body (lPager, rPager) of
        (res, lp1, rp1) \<Rightarrow>
          (let putR = PutPage rp1 rBucket;
               putL = PutPage lp1 lBucket
           in (if is_panic (fst putL) then fst putL
               else if is_panic (fst putR) then fst putR
               else res,
               snd putL, snd putR)))"

subsection \<open>The probe phase of Join\<close>

text \<open>A spawned probe task: the pair of bucket page numbers and the two fetched buckets.\<close>

record task =
  lPN :: int
  rPN :: int
  lBucket :: nat
  rBucket :: nat

record probe_state =
  seenList :: "int \<times> int \<rightharpoonup> bool"
  leftHashTable :: hash_table
  rightHashTable :: hash_table
  tasks :: "task list"

text \<open>
  One round of the loop \<open>for i, lBucketPN := range leftBuckets\<close> for a pair that was not
  seen before: \<open>Inl\<close> is the error return of Join (or its panic, when the error is
  \<open>Panicked\<close>), \<open>Inr\<close> goes on with the next slot. The result of the PutPage on the
  error path is dropped by the code; a panic in it is a panic of Join.
\<close>

definition probe_pair ::
  "fetch \<Rightarrow> int \<Rightarrow> int \<Rightarrow> probe_state \<Rightarrow> (error \<times> probe_state) + probe_state" where
  "probe_pair fetch lBucketPN rBucketPN st =
     (let st0 = st\<lparr>seenList := (seenList st)((lBucketPN, rBucketPN) \<mapsto> True)\<rparr>
      in case fetch (leftHashTable st0) lBucketPN of
           (Inl err, lt) \<Rightarrow> Inl (err, st0\<lparr>leftHashTable := lt\<rparr>)
         | (Inr lB, lt) \<Rightarrow>
             (case fetch (rightHashTable st0) rBucketPN of
                (Inl err, rt) \<Rightarrow>
                  (if is_panic (Some err)
                   then Inl (err, st0\<lparr>leftHashTable := lt, rightHashTable := rt\<rparr>)
                   else
                     let put = PutPage (tpager lt) lB
                     in Inl (case fst put of Some (Panicked s) \<Rightarrow> Panicked s | _ \<Rightarrow> err,
                             st0\<lparr>leftHashTable := lt\<lparr>tpager := snd put\<rparr>,
                                 rightHashTable := rt\<rparr>))
              | (Inr rB, rt) \<Rightarrow>
                  Inr (st0\<lparr>leftHashTable := lt, rightHashTable := rt,
                          tasks := tasks st0 @ [\<lparr>lPN = lBucketPN, rPN = rBucketPN,
                                                 lBucket = lB, rBucket = rB\<rparr>]\<rparr>)))"

text \<open>
  The loop over the slots of the left directory; \<open>rightBuckets[i]\<close> panics when the right
  directory has no slot \<open>i\<close>.
\<close>

fun probe_loop ::
  "fetch \<Rightarrow> int list \<Rightarrow> int list \<Rightarrow> probe_state \<Rightarrow> (error \<times> probe_state) + probe_state" where
  "probe_loop fetch [] rightBuckets st = Inr st"
| "probe_loop fetch (lBucketPN # ls) [] st = Inl (Panicked ''index out of range'', st)"
| "probe_loop fetch (lBucketPN # ls) (rBucketPN # rs) st =
     (if seenList st (lBucketPN, rBucketPN) \<noteq> None then probe_loop fetch ls rs st
      else case probe_pair fetch lBucketPN rBucketPN st of
             Inl ret \<Rightarrow> Inl ret
           | Inr st' \<Rightarrow> probe_loop fetch ls rs st')"

text \<open>
  The loop starts with an empty seenList and no task. \<open>task_pairs\<close> gives the pairs of
  bucket page numbers of the spawned tasks, in the order of spawning; \<open>probe_inv\<close> is the
  invariant of the loop: no pair has two tasks, and the pairs in seenList are the pairs
  that have a task.
\<close>

definition probe_init :: "hash_table \<Rightarrow> hash_table \<Rightarrow> probe_state" where
  "probe_init lt rt = \<lparr>seenList = Map.empty, leftHashTable = lt, rightHashTable = rt, tasks = []\<rparr>"

definition task_pairs :: "task list \<Rightarrow> (int \<times> int) list" where
  "task_pairs ts = map (\<lambda>t. (lPN t, rPN t)) ts"

definition probe_inv :: "probe_state \<Rightarrow> bool" where
  "probe_inv st = (distinct (task_pairs (tasks st))
     \<and> set (task_pairs (tasks st)) = {pr. seenList st pr \<noteq> None})"

subsection \<open>Temporary files and the cleanup callback\<close>

text \<open>
  The file system as the set of the names of the files that exist. os.Remove deletes the
  named file when the operating system lets it: \<open>can name\<close> says so. Otherwise, or on a
  name that does not exist, it fails and changes nothing; Join drops its result.
\<close>

definition os_Remove :: "(string \<Rightarrow> bool) \<Rightarrow> string \<Rightarrow> string set \<Rightarrow> string set" where
  "os_Remove can name A = (if can name then A - {name} else A)"


text \<open>
  HashIndex.Close is not part of the sources: it is the parameter \<open>hclose\<close>, which gives
  the error of the call, the index and the file system after it. Join drops the error;
  when it is a panic (\<open>Panicked\<close>), the caller panics and does nothing more.
\<close>

type_synonym index_close =
  "hash_table \<Rightarrow> string set \<Rightarrow> error option \<times> hash_table \<times> string set"



subsection \<open>Join\<close>

text \<open>
  What Join returns and leaves behind. \<open>handles\<close> tells whether resultsChan, the context
  and the group are returned (they are nil on every error return); \<open>cleanup\<close> is the
  callback, given by the two file names it captured, or \<open>None\<close> for nil; \<open>spawned\<close> are
  the probe tasks started with group.Go. A panic of Join returns nothing: it is the error
  \<open>Panicked\<close> with no handles and no callback.
\<close>

record join_ret =
  handles :: bool
  cleanup :: "(string \<times> string) option"
  jerr :: "error option"
  spawned :: "task list"
  jfs :: "string set"
  jtables :: "(hash_table \<times> hash_table) option"

text \<open>
  buildHashIndex ends in a body that is not part of the sources: the two calls are the
  parameters \<open>buildLeft\<close> and \<open>buildRight\<close>, which work on the file system and give an
  error (a panic is \<open>Panicked\<close>) or the temporary index with the name of its file.
\<close>

type_synonym build = "string set \<Rightarrow> (error + hash_table \<times> string) \<times> string set"

definition probe_phase ::
  "fetch \<Rightarrow> string \<Rightarrow> string \<Rightarrow> string set \<Rightarrow> hash_table \<Rightarrow> hash_table \<Rightarrow> join_ret" where
  "probe_phase fetch leftDbName rightDbName fs2 lt rt =
     (case probe_loop fetch (GetBuckets lt) (GetBuckets rt) (probe_init lt rt) of
        Inl (err, st) \<Rightarrow>
          \<lparr>handles = False,
           cleanup = (if is_panic (Some err) then None else Some (leftDbName, rightDbName)),
           jerr = Some err, spawned = tasks st, jfs = fs2,
           jtables = Some (leftHashTable st, rightHashTable st)\<rparr>
      | Inr st \<Rightarrow>
          \<lparr>handles = True, cleanup = Some (leftDbName, rightDbName), jerr = None,
           spawned = tasks st, jfs = fs2,
           jtables = Some (leftHashTable st, rightHashTable st)\<rparr>)"

text \<open>
  Join. When the second build fails, the first index is closed and its two files are
  removed before the error is returned; a panic of a build or of that Close is a panic
  of Join.
\<close>

definition Join ::
  "fetch \<Rightarrow> (string \<Rightarrow> bool) \<Rightarrow> index_close \<Rightarrow> build \<Rightarrow> build \<Rightarrow> string set \<Rightarrow> join_ret" where
  "Join fetch can hclose buildLeft buildRight fs0 =
     (case buildLeft fs0 of
        (Inl err, fs1) \<Rightarrow>
          \<lparr>handles = False, cleanup = None, jerr = Some err, spawned = [], jfs = fs1,
           jtables = None\<rparr>
      | (Inr (leftIndex, leftDbName), fs1) \<Rightarrow>
          (case buildRight fs1 of
             (Inl err, fs2) \<Rightarrow>
               (if is_panic (Some err)
                then \<lparr>handles = False, cleanup = None, jerr = Some err, spawned = [],
                      jfs = fs2, jtables = None\<rparr>
                else
                  (case hclose leftIndex fs2 of
                     (e1, li, A1) \<Rightarrow>
                       if is_panic e1
                       then \<lparr>handles = False, cleanup = None, jerr = e1, spawned = [],
                             jfs = A1, jtables = None\<rparr>
                       else \<lparr>handles = False, cleanup = None, jerr = Some err, spawned = [],
                             jfs = os_Remove can (leftDbName @ ''.meta'')
                                     (os_Remove can leftDbName A1),
                             jtables = None\<rparr>))
           | (Inr (rightIndex, rightDbName), fs2) \<Rightarrow>
               probe_phase fetch leftDbName rightDbName fs2
                 (fst (equalize leftIndex rightIndex)) (snd (equalize leftIndex rightIndex))))"

subsection \<open>Sample tables, fetches, probe bodies, index closing and builds\<close>

text \<open>
  Three tables of depth 1 on the pager with page 0 pinned: in one both directory slots
  share bucket page 0, in another bucket page 1, in the third the slots have the bucket
  pages 0 and 1. A GetBucketByPN for which page 0 is resident (it gets one more pin) and
  no other page can be fetched.
\<close>

definition table_aliased :: hash_table where
  "table_aliased = \<lparr>depth = 1, buckets = [0, 0], tpager = pager_pinned\<rparr>"

definition table_other :: hash_table where
  "table_other = \<lparr>depth = 1, buckets = [1, 1], tpager = pager_pinned\<rparr>"

definition table_split :: hash_table where
  "table_split = \<lparr>depth = 1, buckets = [0, 1], tpager = pager_pinned\<rparr>"

definition fetch_sample :: fetch where
  "fetch_sample t pn =
     (if pn = 0
      then (Inr 0, t\<lparr>tpager := (tpager t)\<lparr>frames := (frames (tpager t))[0 := Get (frames (tpager t) ! 0)]\<rparr>\<rparr>)
      else (Inl ErrRanOutOfPages, t))"

text \<open>
  Three bodies for probeBuckets, one for each way out: normal completion, a cancelled
  context, and a panic (what the body of the sources does).
\<close>

definition body_ok :: "pager \<times> pager \<Rightarrow> error option \<times> pager \<times> pager" where
  "body_ok = (\<lambda>(l, r). (None, l, r))"

definition body_cancelled :: "pager \<times> pager \<Rightarrow> error option \<times> pager \<times> pager" where
  "body_cancelled = (\<lambda>(l, r). (Some ErrCancelled, l, r))"

definition body_panics :: "pager \<times> pager \<Rightarrow> error option \<times> pager \<times> pager" where
  "body_panics = (\<lambda>(l, r). (Some (Panicked ''Not yet implemented''), l, r))"

text \<open>
  An index whose Close writes the two sidecar files again and one whose Close panics (as
  the Close of the pager does with nothing pinned), a file system with the temporary
  files of a join and one other file, two builds that give the sample tables, an operating
  system that removes every file, and one that does not let the first data file go.
\<close>

definition hclose_sample :: index_close where
  "hclose_sample ix A = (None, ix, insert ''/tmp/1.db.meta'' (insert ''/tmp/2.db.meta'' A))"



definition build_sample_left :: build where
  "build_sample_left A = (Inr (table_aliased, ''/tmp/1.db''), insert ''/tmp/1.db'' A)"

definition build_sample_right :: build where
  "build_sample_right A = (Inr (table_other, ''/tmp/2.db''), insert ''/tmp/2.db'' A)"

definition can_all :: "string \<Rightarrow> bool" where
  "can_all name = True"



section \<open>Properties of the join\<close>

subsection \<open>Depth equalization\<close>

lemma equalize_left:
  "depth l \<le> depth r \<Longrightarrow> equalize l r = ((ExtendTable ^^ nat (depth r - depth l)) l, r)"
proof (induction l r rule: equalize.induct)
  case (1 l r)
  show ?case
  proof (cases "depth l = depth r")
    case True
    then show ?thesis by (subst equalize.simps) (simp add: GetDepth_def)
  next
    case False
    with 1 have lt: "depth l < depth r" by simp
    then have "nat (depth r - depth l) = Suc (nat (depth r - depth (ExtendTable l)))"
      by (simp add: ExtendTable_def)
    moreover have "equalize l r = equalize (ExtendTable l) r"
      using lt by (subst equalize.simps) (simp add: GetDepth_def)
    moreover have "equalize (ExtendTable l) r =
        ((ExtendTable ^^ nat (depth r - depth (ExtendTable l))) (ExtendTable l), r)"
      by (rule 1(1)) (use lt in \<open>simp_all add: GetDepth_def ExtendTable_def\<close>)
    ultimately show ?thesis by (simp add: funpow_swap1)
  qed
qed

lemma equalize_right:
  "depth r \<le> depth l \<Longrightarrow> equalize l r = (l, (ExtendTable ^^ nat (depth l - depth r)) r)"
proof (induction l r rule: equalize.induct)
  case (1 l r)
  show ?case
  proof (cases "depth l = depth r")
    case True
    then show ?thesis by (subst equalize.simps) (simp add: GetDepth_def)
  next
    case False
    with 1 have lt: "depth r < depth l" by simp
    then have "nat (depth l - depth r) = Suc (nat (depth l - depth (ExtendTable r)))"
      by (simp add: ExtendTable_def)
    moreover have "equalize l r = equalize l (ExtendTable r)"
      using lt by (subst equalize.simps) (simp add: GetDepth_def)
    moreover have "equalize l (ExtendTable r) =
        (l, (ExtendTable ^^ nat (depth l - depth (ExtendTable r))) (ExtendTable r))"
      by (rule 1(2)) (use lt in \<open>simp_all add: GetDepth_def ExtendTable_def\<close>)
    ultimately show ?thesis by (simp add: funpow_swap1)
  qed
qed

lemma depth_ExtendTable_funpow: "depth ((ExtendTable ^^ n) t) = depth t + int n"
  by (induction n) (simp_all add: ExtendTable_def)

text \<open>
  C7: for all global depths of the two temporary tables the equalization loop terminates
  (\<open>equalize\<close> is a total function, by its termination proof), it extends only the table
  whose depth is strictly smaller (the other table comes out as it went in, and the
  smaller one is extended once for each unit of the difference, neither more nor less),
  and on exit both depths are equal.
\<close>

theorem equalize_depths:
  "equalize l r = ((ExtendTable ^^ nat (GetDepth r - GetDepth l)) l,
                   (ExtendTable ^^ nat (GetDepth l - GetDepth r)) r)
   \<and> GetDepth (fst (equalize l r)) = GetDepth (snd (equalize l r))
   \<and> GetDepth (fst (equalize l r)) = max (GetDepth l) (GetDepth r)"
proof (cases "depth l \<le> depth r")
  case True
  then show ?thesis
    by (simp add: equalize_left GetDepth_def depth_ExtendTable_funpow)
next
  case False
  then show ?thesis
    by (simp add: equalize_right GetDepth_def depth_ExtendTable_funpow)
qed

section \<open>Properties of the pager\<close>

subsection \<open>PutPage\<close>

lemma unlink_absent: "l \<notin> fst ` set xs \<Longrightarrow> unlink l xs = xs"
  by (induction xs) (auto simp: unlink_def)

lemma unlink_ids: "l \<notin> fst ` set (unlink l xs)"
  by (auto simp: unlink_def)

text \<open>
  C2: for every page (a frame \<open>f\<close> of the arena whose page number has the entry \<open>link\<close> in
  the page table), PutPage decrements the pin count. Exactly when the resulting count is
  zero the page's link is unlinked (so it is no longer on the pinned queue), a new link
  holding the page is put at the tail of the unpinned queue and the page table maps the
  page number to the new link; for any other resulting count the queues and the page
  table stay as they are. PutPage returns the error exactly when the resulting count is
  negative.
\<close>

theorem PutPage_spec:
  assumes "f < length (frames p)"
    and "pageTable p (pagenum (frames p ! f)) = Some link"
  shows "pinCount (frames (snd (PutPage p f)) ! f) = pinCount (frames p ! f) - 1
    \<and> (fst (PutPage p f) = Some ErrPinCountNegative \<longleftrightarrow> pinCount (frames p ! f) - 1 < 0)
    \<and> (fst (PutPage p f) = None \<longleftrightarrow> 0 \<le> pinCount (frames p ! f) - 1)
    \<and> (pinCount (frames p ! f) - 1 = 0 \<longrightarrow>
          pinnedList (snd (PutPage p f)) = unlink (fst link) (pinnedList p)
        \<and> fst link \<notin> fst ` set (pinnedList (snd (PutPage p f)))
        \<and> unpinnedList (snd (PutPage p f)) = unlink (fst link) (unpinnedList p) @ [(nextLink p, f)]
        \<and> (fst link \<notin> fst ` set (unpinnedList p) \<longrightarrow>
              unpinnedList (snd (PutPage p f)) = unpinnedList p @ [(nextLink p, f)])
        \<and> pageTable (snd (PutPage p f)) = (pageTable p)(pagenum (frames p ! f) \<mapsto> (nextLink p, f)))
    \<and> (pinCount (frames p ! f) - 1 \<noteq> 0 \<longrightarrow>
          pinnedList (snd (PutPage p f)) = pinnedList p
        \<and> unpinnedList (snd (PutPage p f)) = unpinnedList p
        \<and> freeList (snd (PutPage p f)) = freeList p
        \<and> pageTable (snd (PutPage p f)) = pageTable p)"
  using assms
  by (auto simp: PutPage_def Put_def Let_def move_to_unpinned_def PopSelf_def
      PushTail_unpinned_def unlink_absent unlink_ids)

lemma pager_fresh_eq:
  "pager_fresh = \<lparr>pfile = Some \<lparr>fname = ''a.db'', fclosed = False, fpages = []\<rparr>, numPages = 0,
                   freeList = [(0, 0)], unpinnedList = [], pinnedList = [],
                   pageTable = Map.empty, frames = [new_frame], nextLink = 1\<rparr>"
  by (simp add: pager_fresh_def Open_def os_ok_def LastIndex_def add_frame_def empty_pager_def
      PushTail_free_def signed_divide_int_def)

lemma pager_pinned_eq:
  "pager_pinned = \<lparr>pfile = Some \<lparr>fname = ''a.db'', fclosed = False, fpages = []\<rparr>, numPages = 1,
                    freeList = [], unpinnedList = [], pinnedList = [(1, 0)],
                    pageTable = [0 \<mapsto> (1, 0)],
                    frames = [new_frame\<lparr>pagenum := 0, pinCount := 1\<rparr>], nextLink = 2\<rparr>"
  by (simp add: pager_pinned_def pager_fresh_eq)


text \<open>
  The witness: the pager with one frame whose page 0 is pinned once; its link is \<open>(1, 0)\<close>.
  PutPage moves the page to the unpinned queue.
\<close>

theorem PutPage_spec_witness:
  "0 < length (frames pager_pinned)
   \<and> pageTable pager_pinned (pagenum (frames pager_pinned ! 0)) = Some (1, 0)
   \<and> pinnedList pager_pinned = [(1, 0)]
   \<and> fst (PutPage pager_pinned 0) = None
   \<and> pinnedList (snd (PutPage pager_pinned 0)) = []
   \<and> unpinnedList (snd (PutPage pager_pinned 0)) = [(2, 0)]"
proof -
  have h1: "0 < length (frames pager_pinned)"
    by (simp add: pager_pinned_eq)
  have h2: "pageTable pager_pinned (pagenum (frames pager_pinned ! 0)) = Some (1, 0)"
    by (simp add: pager_pinned_eq new_frame_def)
  have h3: "pinCount (frames pager_pinned ! 0) = 1" "pinnedList pager_pinned = [(1, 0)]"
    "unpinnedList pager_pinned = []" "nextLink pager_pinned = 2"
    by (simp_all add: pager_pinned_eq new_frame_def)
  from PutPage_spec [OF h1 h2] h1 h2 h3 show ?thesis
    by (simp add: unlink_def)
qed


subsection \<open>Close\<close>

lemma Close_pinned: "pinnedList p \<noteq> [] \<Longrightarrow> Close cerr p = (Some ErrPinnedOnClose, p)"
  by (cases "pinnedList p") (simp_all add: Close_def PeekHead_def)

lemma Close_nothing_pinned:
  "pinnedList p = [] \<Longrightarrow> Close cerr p = (Some (Panicked ''Not implemented yet''), p)"
  by (simp add: Close_def PeekHead_def FlushAllPages_def)

text \<open>
  C1 fails on the code. With a page pinned, Close returns its error and leaves the pager
  as it is. With nothing pinned (the pager that New gives), Close neither flushes nor
  closes the backing file nor succeeds: it calls FlushAllPages, which panics, and the
  file stays open.
\<close>

theorem Close_panics_with_nothing_pinned:
  "New os_ok 1 ''a.db'' = Inr pager_fresh
   \<and> pinnedList pager_fresh = []
   \<and> Close None pager_fresh = (Some (Panicked ''Not implemented yet''), pager_fresh)
   \<and> pfile pager_fresh = Some \<lparr>fname = ''a.db'', fclosed = False, fpages = []\<rparr>
   \<and> pinnedList pager_pinned = [(1, 0)]
   \<and> Close None pager_pinned = (Some ErrPinnedOnClose, pager_pinned)"
  by (simp add: pager_pinned_eq pager_fresh_eq Close_def PeekHead_def FlushAllPages_def
      New_def Open_def os_ok_def LastIndex_def add_frame_def empty_pager_def
      PushTail_free_def signed_divide_int_def)

subsection \<open>Open\<close>

lemma smod_Pagesize: "k smod Pagesize = 0 \<longleftrightarrow> k mod Pagesize = 0"
  by (auto simp: signed_modulo_int_def Pagesize_def sgn_if zmod_zminus1_eq_if split: if_splits)

lemma sdiv_Pagesize: "k mod Pagesize = 0 \<Longrightarrow> k sdiv Pagesize = k div Pagesize"
  by (auto simp: signed_divide_int_def Pagesize_def sgn_if zdiv_zminus1_eq_if)

text \<open>
  C4, as the code has it. An error of MkdirAll is returned as it is, with the pager
  unchanged, and so is an error of OpenFile. When the directories can be made, the file
  can be opened (or created) and Stat gives its length \<open>len\<close>, Open fails with the
  corruption error if \<open>len\<close> is not a multiple of Pagesize, and otherwise succeeds with
  \<open>numPages = len / Pagesize\<close>; so for a newly created file, of length 0, numPages is 0.
\<close>

theorem Open_spec:
  "(LastIndex filePath CHR ''/'' \<noteq> - 1
      \<and> MkdirAll os (take (nat (LastIndex filePath CHR ''/'')) filePath) = Some e \<longrightarrow>
        Open os p filePath = (Some e, p))
   \<and> ((LastIndex filePath CHR ''/'' \<noteq> - 1 \<longrightarrow>
          MkdirAll os (take (nat (LastIndex filePath CHR ''/'')) filePath) = None) \<longrightarrow>
        (OpenFile os filePath = Inl e \<longrightarrow> fst (Open os p filePath) = Some e)
      \<and> (OpenFile os filePath = Inr fl \<and> Stat os fl = Inr len \<longrightarrow>
            (len mod Pagesize \<noteq> 0 \<longrightarrow> fst (Open os p filePath) = Some ErrCorrupted)
          \<and> (len mod Pagesize = 0 \<longrightarrow>
               fst (Open os p filePath) = None
             \<and> numPages (snd (Open os p filePath)) = len div Pagesize
             \<and> pfile (snd (Open os p filePath)) = Some fl)
          \<and> (len = 0 \<longrightarrow>
               fst (Open os p filePath) = None \<and> numPages (snd (Open os p filePath)) = 0)))"
  by (auto simp: Open_def Let_def smod_Pagesize sdiv_Pagesize)

text \<open>
  The witness: a newly created file in a directory, then a file that cannot be opened, then
  a directory that cannot be made.
\<close>

theorem Open_spec_witness:
  "OpenFile os_ok ''data/a.db'' = Inr \<lparr>fname = ''data/a.db'', fclosed = False, fpages = []\<rparr>
   \<and> Stat os_ok \<lparr>fname = ''data/a.db'', fclosed = False, fpages = []\<rparr> = Inr 0
   \<and> fst (Open os_ok empty_pager ''data/a.db'') = None
   \<and> numPages (snd (Open os_ok empty_pager ''data/a.db'')) = 0
   \<and> OpenFile os_denied ''data/a.db'' = Inl (ErrOS ''permission denied'')
   \<and> fst (Open os_denied empty_pager ''data/a.db'') = Some (ErrOS ''permission denied'')
   \<and> MkdirAll os_mkdir_fails ''data'' = Some (ErrOS ''read-only file system'')
   \<and> Open os_mkdir_fails empty_pager ''data/a.db''
       = (Some (ErrOS ''read-only file system''), empty_pager)"
proof -
  let ?fl = "\<lparr>fname = ''data/a.db'', fclosed = False, fpages = []\<rparr>"
  have ix: "LastIndex ''data/a.db'' CHR ''/'' = 4"
    by (simp add: LastIndex_def)
  have h1: "MkdirAll os_ok ''data'' = None" "MkdirAll os_denied ''data'' = None"
    "MkdirAll os_mkdir_fails ''data'' = Some (ErrOS ''read-only file system'')"
    by (simp_all add: os_ok_def os_denied_def os_mkdir_fails_def)
  have h2: "OpenFile os_ok ''data/a.db'' = Inr ?fl"
    "OpenFile os_denied ''data/a.db'' = Inl (ErrOS ''permission denied'')"
    by (simp_all add: os_ok_def os_denied_def)
  have h3: "Stat os_ok ?fl = Inr 0"
    by (simp add: os_ok_def)
  from Open_spec [of "''data/a.db''" os_ok "ErrOS ''x''" empty_pager ?fl 0] ix h1 h2 h3
  have a: "fst (Open os_ok empty_pager ''data/a.db'') = None"
    "numPages (snd (Open os_ok empty_pager ''data/a.db'')) = 0"
    by simp_all
  from Open_spec [of "''data/a.db''" os_denied "ErrOS ''permission denied''" empty_pager ?fl 0]
    ix h1 h2
  have b: "fst (Open os_denied empty_pager ''data/a.db'') = Some (ErrOS ''permission denied'')"
    by simp
  from Open_spec [of "''data/a.db''" os_mkdir_fails "ErrOS ''read-only file system''"
      empty_pager ?fl 0] ix h1
  have c: "Open os_mkdir_fails empty_pager ''data/a.db''
             = (Some (ErrOS ''read-only file system''), empty_pager)"
    by simp
  from a b c h1 h2 h3 show ?thesis by simp
qed

text \<open>
  The claim C4 as stated fails where the file cannot be opened: no file with a length
  that is not a multiple of Pagesize is there, and Open neither succeeds nor reports
  corruption, it returns the error of OpenFile.
\<close>

theorem Open_denied_counterexample:
  "OpenFile os_denied ''data/a.db'' = Inl (ErrOS ''permission denied'')
   \<and> fst (Open os_denied empty_pager ''data/a.db'') = Some (ErrOS ''permission denied'')
   \<and> fst (Open os_denied empty_pager ''data/a.db'') \<noteq> None
   \<and> fst (Open os_denied empty_pager ''data/a.db'') \<noteq> Some ErrCorrupted"
  by (simp add: Open_def os_denied_def os_ok_def LastIndex_def)

text \<open>
  C5 fails on the code: when Stat fails on the opened file, Open drops the error, sets
  numPages to 0 and reports success.
\<close>

theorem Open_stat_error_dropped:
  "Stat os_stat_fails \<lparr>fname = ''data/a.db'', fclosed = False, fpages = []\<rparr>
     = Inl (ErrOS ''input/output error'')
   \<and> fst (Open os_stat_fails empty_pager ''data/a.db'') = None
   \<and> numPages (snd (Open os_stat_fails empty_pager ''data/a.db'')) = 0"
  by (simp add: Open_def os_stat_fails_def os_ok_def LastIndex_def signed_divide_int_def)

section \<open>Properties of the probe phase\<close>

subsection \<open>One task for each pair\<close>

lemma probe_pair_Inr:
  "probe_pair fetch l r st = Inr st' \<Longrightarrow>
     seenList st' = (seenList st)((l, r) \<mapsto> True)
     \<and> task_pairs (tasks st') = task_pairs (tasks st) @ [(l, r)]"
  by (auto simp: probe_pair_def Let_def task_pairs_def split: prod.splits sum.splits if_splits)

lemma probe_pair_Inl:
  "probe_pair fetch l r st = Inl (e, st') \<Longrightarrow>
     seenList st' = (seenList st)((l, r) \<mapsto> True) \<and> tasks st' = tasks st"
  by (auto simp: probe_pair_def Let_def split: prod.splits sum.splits if_splits)

lemma probe_inv_step:
  assumes "probe_inv st" "seenList st (l, r) = None" "probe_pair fetch l r st = Inr st1"
  shows "probe_inv st1"
    and "set (task_pairs (tasks st1)) = insert (l, r) (set (task_pairs (tasks st)))"
proof -
  from probe_pair_Inr [OF assms(3)] have s1: "seenList st1 = (seenList st)((l, r) \<mapsto> True)"
    and t1: "task_pairs (tasks st1) = task_pairs (tasks st) @ [(l, r)]" by auto
  show "probe_inv st1"
    using assms(1,2) s1 t1 by (auto simp: probe_inv_def)
  show "set (task_pairs (tasks st1)) = insert (l, r) (set (task_pairs (tasks st)))"
    using t1 by simp
qed

lemma probe_inv_seen:
  "probe_inv st \<Longrightarrow> (seenList st pr \<noteq> None) = (pr \<in> set (task_pairs (tasks st)))"
  by (auto simp: probe_inv_def)

lemma probe_loop_Inr:
  "probe_loop fetch ls rs st = Inr st' \<Longrightarrow> probe_inv st \<Longrightarrow>
     probe_inv st' \<and> length ls \<le> length rs
     \<and> set (task_pairs (tasks st')) = set (task_pairs (tasks st)) \<union> set (zip ls rs)"
proof (induction fetch ls rs st rule: probe_loop.induct)
  case (1 fetch rightBuckets st)
  then show ?case by simp
next
  case (2 fetch lBucketPN ls st)
  then show ?case by simp
next
  case (3 fetch l ls r rs st)
  show ?case
  proof (cases "seenList st (l, r) \<noteq> None")
    case True
    with 3 have "probe_loop fetch ls rs st = Inr st'" by simp
    from 3(1) [OF True this 3(4)] True probe_inv_seen [OF 3(4), of "(l, r)"]
    show ?thesis by auto
  next
    case False
    with 3(3) obtain st1 where p1: "probe_pair fetch l r st = Inr st1"
      and l1: "probe_loop fetch ls rs st1 = Inr st'"
      by (auto split: sum.splits)
    from False have un: "seenList st (l, r) = None" by simp
    note st1 = probe_inv_step [OF 3(4) un p1]
    from 3(2) [OF _ p1 l1 st1(1)] False st1(2) show ?thesis by auto
  qed
qed

lemma probe_loop_Inl:
  "probe_loop fetch ls rs st = Inl (e, st') \<Longrightarrow> probe_inv st \<Longrightarrow>
     distinct (task_pairs (tasks st'))
     \<and> (\<exists>n<length ls. n \<le> length rs
          \<and> set (task_pairs (tasks st')) = set (task_pairs (tasks st)) \<union> set (take n (zip ls rs))
          \<and> (n < length rs \<longrightarrow> (ls ! n, rs ! n) \<notin> set (task_pairs (tasks st'))))"
proof (induction fetch ls rs st rule: probe_loop.induct)
  case (1 fetch rightBuckets st)
  then show ?case by simp
next
  case (2 fetch lBucketPN ls st)
  then show ?case by (auto simp: probe_inv_def)
next
  case (3 fetch l ls r rs st)
  show ?case
  proof (cases "seenList st (l, r) \<noteq> None")
    case True
    with 3 have "probe_loop fetch ls rs st = Inl (e, st')" by simp
    from 3(1) [OF True this 3(4)] obtain n where d: "distinct (task_pairs (tasks st'))"
      and n: "n < length ls" "n \<le> length rs"
      "set (task_pairs (tasks st')) = set (task_pairs (tasks st)) \<union> set (take n (zip ls rs))"
      "n < length rs \<longrightarrow> (ls ! n, rs ! n) \<notin> set (task_pairs (tasks st'))"
      by auto
    from True probe_inv_seen [OF 3(4), of "(l, r)"]
    have "(l, r) \<in> set (task_pairs (tasks st))" by simp
    with n have "Suc n < length (l # ls) \<and> Suc n \<le> length (r # rs)
       \<and> set (task_pairs (tasks st'))
           = set (task_pairs (tasks st)) \<union> set (take (Suc n) (zip (l # ls) (r # rs)))
       \<and> (Suc n < length (r # rs) \<longrightarrow>
            ((l # ls) ! Suc n, (r # rs) ! Suc n) \<notin> set (task_pairs (tasks st')))"
      by auto
    with d show ?thesis by blast
  next
    case False
    then have un: "seenList st (l, r) = None" by simp
    show ?thesis
    proof (cases "probe_pair fetch l r st")
      case (Inl ret)
      with 3(3) False have ret: "ret = (e, st')" by simp
      from probe_pair_Inl [OF Inl [unfolded ret]] have t: "tasks st' = tasks st" by simp
      from un probe_inv_seen [OF 3(4), of "(l, r)"]
      have "(l, r) \<notin> set (task_pairs (tasks st))" by simp
      with t 3(4) have "distinct (task_pairs (tasks st'))
        \<and> 0 < length (l # ls) \<and> 0 \<le> length (r # rs)
        \<and> set (task_pairs (tasks st'))
            = set (task_pairs (tasks st)) \<union> set (take 0 (zip (l # ls) (r # rs)))
        \<and> (0 < length (r # rs) \<longrightarrow>
             ((l # ls) ! 0, (r # rs) ! 0) \<notin> set (task_pairs (tasks st')))"
        by (simp add: probe_inv_def)
      then show ?thesis by blast
    next
      case (Inr st1)
      with 3(3) False have l1: "probe_loop fetch ls rs st1 = Inl (e, st')" by simp
      note st1 = probe_inv_step [OF 3(4) un Inr]
      from 3(2) [OF _ Inr l1 st1(1)] False
      obtain n where d: "distinct (task_pairs (tasks st'))"
        and n: "n < length ls" "n \<le> length rs"
        "set (task_pairs (tasks st')) = set (task_pairs (tasks st1)) \<union> set (take n (zip ls rs))"
        "n < length rs \<longrightarrow> (ls ! n, rs ! n) \<notin> set (task_pairs (tasks st'))"
        by auto
      from n st1(2) have "Suc n < length (l # ls) \<and> Suc n \<le> length (r # rs)
         \<and> set (task_pairs (tasks st'))
             = set (task_pairs (tasks st)) \<union> set (take (Suc n) (zip (l # ls) (r # rs)))
         \<and> (Suc n < length (r # rs) \<longrightarrow>
              ((l # ls) ! Suc n, (r # rs) ! Suc n) \<notin> set (task_pairs (tasks st')))"
        by auto
      with d show ?thesis by blast
    qed
  qed
qed

lemma probe_inv_init: "probe_inv (probe_init lt rt)"
  by (simp add: probe_inv_def probe_init_def task_pairs_def)

text \<open>
  C6, as the code has it, for any GetBucketByPN. In every run of the probe phase no pair
  of bucket page numbers gets two probe tasks; a slot whose pair is in seenList is
  skipped. When Join returns without error, the walk has covered every slot of the left
  directory and every pair that occurs in the walk has exactly one task. When Join
  returns an error (or panics) at slot \<open>n\<close>, the pairs with a task are exactly the pairs
  of the slots before \<open>n\<close>: the pair at slot \<open>n\<close> has no task, and no later slot is
  looked at.
\<close>

theorem probe_phase_once_per_pair:
  "distinct (task_pairs (spawned (probe_phase fetch ln rn fs2 lt rt)))
   \<and> (jerr (probe_phase fetch ln rn fs2 lt rt) = None \<longrightarrow>
         length (GetBuckets lt) \<le> length (GetBuckets rt)
       \<and> set (task_pairs (spawned (probe_phase fetch ln rn fs2 lt rt)))
           = set (zip (GetBuckets lt) (GetBuckets rt)))
   \<and> (jerr (probe_phase fetch ln rn fs2 lt rt) \<noteq> None \<longrightarrow>
         (\<exists>n<length (GetBuckets lt). n \<le> length (GetBuckets rt)
            \<and> set (task_pairs (spawned (probe_phase fetch ln rn fs2 lt rt)))
                = set (take n (zip (GetBuckets lt) (GetBuckets rt)))
            \<and> (n < length (GetBuckets rt) \<longrightarrow>
                  (GetBuckets lt ! n, GetBuckets rt ! n)
                    \<notin> set (task_pairs (spawned (probe_phase fetch ln rn fs2 lt rt))))))"
proof (cases "probe_loop fetch (GetBuckets lt) (GetBuckets rt) (probe_init lt rt)")
  case (Inl ret)
  obtain e st' where ret: "ret = (e, st')" by (cases ret)
  have t0: "task_pairs (tasks (probe_init lt rt)) = []"
    by (simp add: probe_init_def task_pairs_def)
  from probe_loop_Inl [OF Inl [unfolded ret] probe_inv_init]
  have "distinct (task_pairs (tasks st'))
     \<and> (\<exists>n<length (GetBuckets lt). n \<le> length (GetBuckets rt)
          \<and> set (task_pairs (tasks st')) = set (take n (zip (GetBuckets lt) (GetBuckets rt)))
          \<and> (n < length (GetBuckets rt) \<longrightarrow>
                (GetBuckets lt ! n, GetBuckets rt ! n) \<notin> set (task_pairs (tasks st'))))"
    unfolding t0 by simp
  then show ?thesis using Inl ret by (simp add: probe_phase_def)
next
  case (Inr st')
  from probe_loop_Inr [OF Inr probe_inv_init]
  have "probe_inv st'" "length (GetBuckets lt) \<le> length (GetBuckets rt)"
    "set (task_pairs (tasks st')) = set (zip (GetBuckets lt) (GetBuckets rt))"
    by (auto simp: probe_init_def task_pairs_def)
  then show ?thesis using Inr by (simp add: probe_phase_def probe_inv_def)
qed

lemmas join_defs = pager_pinned_eq table_aliased_def table_other_def table_split_def
  probe_phase_def probe_init_def probe_pair_def fetch_sample_def GetBuckets_def task_pairs_def
  is_panic_def Get_def new_frame_def

text \<open>
  The witness: two aliased slots give one task; and with the slots \<open>(0, 0)\<close> and \<open>(1, 1)\<close>,
  where bucket page 1 cannot be fetched, the first pair has its task and the second has
  none.
\<close>

theorem probe_phase_once_per_pair_witness:
  "zip (GetBuckets table_aliased) (GetBuckets table_aliased) = [(0, 0), (0, 0)]
   \<and> jerr (probe_phase fetch_sample ''l.db'' ''r.db'' {} table_aliased table_aliased) = None
   \<and> task_pairs (spawned (probe_phase fetch_sample ''l.db'' ''r.db'' {} table_aliased table_aliased))
       = [(0, 0)]
   \<and> zip (GetBuckets table_split) (GetBuckets table_split) = [(0, 0), (1, 1)]
   \<and> jerr (probe_phase fetch_sample ''l.db'' ''r.db'' {} table_split table_split)
       = Some ErrRanOutOfPages
   \<and> task_pairs (spawned (probe_phase fetch_sample ''l.db'' ''r.db'' {} table_split table_split))
       = [(0, 0)]"
proof -
  let ?A = "probe_phase fetch_sample ''l.db'' ''r.db'' {} table_aliased table_aliased"
  let ?S = "probe_phase fetch_sample ''l.db'' ''r.db'' {} table_split table_split"
  have a: "jerr ?A = None" "jerr ?S = Some ErrRanOutOfPages"
    by (simp_all add: join_defs)
  have b: "zip (GetBuckets table_aliased) (GetBuckets table_aliased) = [(0, 0), (0, 0)]"
    "zip (GetBuckets table_split) (GetBuckets table_split) = [(0, 0), (1, 1)]"
    by (simp_all add: join_defs)
  have c: "length (spawned ?A) = 1" "length (spawned ?S) = 1"
    by (simp_all add: join_defs)
  from probe_phase_once_per_pair [of fetch_sample "''l.db''" "''r.db''" "{}" table_aliased table_aliased]
    a b
  have d: "set (task_pairs (spawned ?A)) = {(0, 0)}"
    by simp
  from probe_phase_once_per_pair [of fetch_sample "''l.db''" "''r.db''" "{}" table_split table_split]
    a
  obtain n where n: "n < length (GetBuckets table_split)"
    "set (task_pairs (spawned ?S)) = set (take n (zip (GetBuckets table_split) (GetBuckets table_split)))"
    "n < length (GetBuckets table_split) \<longrightarrow>
       (GetBuckets table_split ! n, GetBuckets table_split ! n) \<notin> set (task_pairs (spawned ?S))"
    by auto
  have l: "length (task_pairs (spawned ?S)) = 1" "length (task_pairs (spawned ?A)) = 1"
    using c by (simp_all add: task_pairs_def)
  have "n \<noteq> 0"
  proof
    assume "n = 0"
    with n(2) have "task_pairs (spawned ?S) = []" by simp
    with l(1) show False by simp
  qed
  with n(1) have "n = 1" by (simp add: table_split_def GetBuckets_def)
  with n(2) b have e: "set (task_pairs (spawned ?S)) = {(0, 0)}" by simp
  from l(2) d have "task_pairs (spawned ?A) = [(0, 0)]"
    by (cases "task_pairs (spawned ?A)") auto
  moreover from l(1) e have "task_pairs (spawned ?S) = [(0, 0)]"
    by (cases "task_pairs (spawned ?S)") auto
  ultimately show ?thesis using a b by simp
qed

text \<open>
  The claim C6 as stated fails when a fetch fails: the pair \<open>(0, 1)\<close> occurs in the walk,
  the right bucket cannot be fetched, Join returns the error and no task is spawned. With
  GetBucketByPN on top of the GetPage of the sources, the first fetch panics and the pair
  \<open>(0, 0)\<close> gets no task either.
\<close>

theorem probe_phase_fetch_error_counterexample:
  "zip (GetBuckets table_aliased) (GetBuckets table_other) = [(0, 1), (0, 1)]
   \<and> jerr (probe_phase fetch_sample ''l.db'' ''r.db'' {} table_aliased table_other)
       = Some ErrRanOutOfPages
   \<and> spawned (probe_phase fetch_sample ''l.db'' ''r.db'' {} table_aliased table_other) = []
   \<and> zip (GetBuckets table_aliased) (GetBuckets table_aliased) = [(0, 0), (0, 0)]
   \<and> jerr (probe_phase GetBucketByPN ''l.db'' ''r.db'' {} table_aliased table_aliased)
       = Some (Panicked ''Not implemented yet'')
   \<and> spawned (probe_phase GetBucketByPN ''l.db'' ''r.db'' {} table_aliased table_aliased) = []"
  by (simp add: join_defs GetBucketByPN_def GetPage_def PutPage_def Put_def Let_def)

section \<open>Properties of probeBuckets\<close>

lemma PutPage_pinCount:
  "f < length (frames p) \<Longrightarrow>
     pinCount (frames (snd (PutPage p f)) ! f) = pinCount (frames p ! f) - 1"
  by (auto simp: PutPage_def Put_def Let_def move_to_unpinned_def PopSelf_def
      PushTail_unpinned_def split: option.splits)

text \<open>
  C8: whatever the probing does and however it ends (normally, with an error, with the
  error of a cancelled context, or with a panic), probeBuckets calls PutPage once for each
  of its two bucket pages, on the page's own pager, before it returns: the pagers it
  leaves are the results of these two calls, and each page's pin count is one less than
  the probing left it. When neither PutPage panics, the result is the result of the
  probing.
\<close>

theorem probeBuckets_releases_both:
  assumes "body (lPager, rPager) = (res, lp1, rp1)"
    and "lB < length (frames lp1)"
    and "rB < length (frames rp1)"
  shows "fst (snd (probeBuckets body lPager rPager lB rB)) = snd (PutPage lp1 lB)
       \<and> snd (snd (probeBuckets body lPager rPager lB rB)) = snd (PutPage rp1 rB)
       \<and> pinCount (frames (fst (snd (probeBuckets body lPager rPager lB rB))) ! lB)
           = pinCount (frames lp1 ! lB) - 1
       \<and> pinCount (frames (snd (snd (probeBuckets body lPager rPager lB rB))) ! rB)
           = pinCount (frames rp1 ! rB) - 1
       \<and> (\<not> is_panic (fst (PutPage lp1 lB)) \<and> \<not> is_panic (fst (PutPage rp1 rB)) \<longrightarrow>
             fst (probeBuckets body lPager rPager lB rB) = res)"
  using assms by (simp add: probeBuckets_def Let_def PutPage_pinCount)

text \<open>The witness: the three ways out, on two pagers whose page 0 is pinned once.\<close>


text \<open>The witness: the three ways out, on two pagers whose page 0 is pinned once.\<close>

theorem probeBuckets_releases_both_witness:
  "pinCount (frames pager_pinned ! 0) = 1
   \<and> probeBuckets body_ok pager_pinned pager_pinned 0 0 = (None, pager_unpinned, pager_unpinned)
   \<and> probeBuckets body_cancelled pager_pinned pager_pinned 0 0
        = (Some ErrCancelled, pager_unpinned, pager_unpinned)
   \<and> probeBuckets body_panics pager_pinned pager_pinned 0 0
        = (Some (Panicked ''Not yet implemented''), pager_unpinned, pager_unpinned)
   \<and> pinCount (frames pager_unpinned ! 0) = 0"
proof -
  have l: "0 < length (frames pager_pinned)" and pc: "pinCount (frames pager_pinned ! 0) = 1"
    by (simp_all add: pager_pinned_eq new_frame_def)
  have np: "\<not> is_panic (fst (PutPage pager_pinned 0))"
    by (simp add: pager_pinned_eq new_frame_def PutPage_def Put_def Let_def is_panic_def)
  have b1: "body_ok (pager_pinned, pager_pinned) = (None, pager_pinned, pager_pinned)"
    and b2: "body_cancelled (pager_pinned, pager_pinned) = (Some ErrCancelled, pager_pinned, pager_pinned)"
    and b3: "body_panics (pager_pinned, pager_pinned)
               = (Some (Panicked ''Not yet implemented''), pager_pinned, pager_pinned)"
    by (simp_all add: body_ok_def body_cancelled_def body_panics_def)
  from probeBuckets_releases_both [of body_ok pager_pinned pager_pinned None pager_pinned pager_pinned 0 0, OF b1 l l] np
  have r1: "probeBuckets body_ok pager_pinned pager_pinned 0 0 = (None, pager_unpinned, pager_unpinned)"
    by (simp add: pager_unpinned_def prod_eq_iff)
  from probeBuckets_releases_both [of body_cancelled pager_pinned pager_pinned "Some ErrCancelled" pager_pinned pager_pinned 0 0, OF b2 l l] np
  have r2: "probeBuckets body_cancelled pager_pinned pager_pinned 0 0
              = (Some ErrCancelled, pager_unpinned, pager_unpinned)"
    by (simp add: pager_unpinned_def prod_eq_iff)
  from probeBuckets_releases_both [of body_panics pager_pinned pager_pinned
      "Some (Panicked ''Not yet implemented'')" pager_pinned pager_pinned 0 0, OF b3 l l] np
  have r3: "probeBuckets body_panics pager_pinned pager_pinned 0 0
              = (Some (Panicked ''Not yet implemented''), pager_unpinned, pager_unpinned)"
    by (simp add: pager_unpinned_def prod_eq_iff)
  have "pinCount (frames pager_unpinned ! 0) = 0"
    using PutPage_pinCount [OF l] pc by (simp add: pager_unpinned_def)
  with pc r1 r2 r3 show ?thesis by simp
qed

section \<open>Properties of the cleanup callback\<close>






section \<open>A failed fetch of the right bucket\<close>

lemma put_ready_no_panic: "put_ready q f \<Longrightarrow> \<not> is_panic (fst (PutPage q f))"
  by (auto simp: put_ready_def PutPage_def Put_def Let_def is_panic_def split: option.splits)

lemma probe_loop_append:
  "length ls1 = length rs1 \<Longrightarrow> probe_loop fetch ls1 rs1 st = Inr st1 \<Longrightarrow>
     probe_loop fetch (ls1 @ ls2) (rs1 @ rs2) st = probe_loop fetch ls2 rs2 st1"
proof (induction ls1 rs1 arbitrary: st rule: list_induct2)
  case Nil
  then show ?case by simp
next
  case (Cons l ls r rs)
  show ?case
  proof (cases "seenList st (l, r) \<noteq> None")
    case True
    with Cons.prems have "probe_loop fetch ls rs st = Inr st1" by simp
    from Cons.IH [OF this] True show ?thesis by simp
  next
    case False
    with Cons.prems obtain st' where p: "probe_pair fetch l r st = Inr st'"
      and l: "probe_loop fetch ls rs st' = Inr st1"
      by (auto split: sum.splits)
    from Cons.IH [OF l] False p show ?thesis by simp
  qed
qed

lemma no_panic_case:
  "\<not> is_panic x \<Longrightarrow> (case x of Some (Panicked s) \<Rightarrow> Panicked s | _ \<Rightarrow> err) = err"
  by (auto simp: is_panic_def split: option.splits error.splits)

lemma probe_pair_right_fails:
  assumes "fetch (leftHashTable st) lpn = (Inr lB, lt)"
    and "fetch (rightHashTable st) rpn = (Inl err, rt)"
    and "\<not> is_panic (Some err)"
    and "put_ready (tpager lt) lB"
  shows "probe_pair fetch lpn rpn st =
           Inl (err, st\<lparr>seenList := (seenList st)((lpn, rpn) \<mapsto> True),
                         leftHashTable := lt\<lparr>tpager := snd (PutPage (tpager lt) lB)\<rparr>,
                         rightHashTable := rt\<rparr>)"
proof -
  from assms(4) have "\<not> is_panic (fst (PutPage (tpager lt) lB))" by (rule put_ready_no_panic)
  then show ?thesis using assms(1,2,3)
    by (simp add: probe_pair_def Let_def no_panic_case)
qed

text \<open>
  C10, for any GetBucketByPN: both temporary indexes are built and the walk has reached a
  slot whose pair \<open>(lpn, rpn)\<close> was not seen before; the left bucket is fetched (its page
  \<open>lB\<close> is a page of the left pager with an entry in the page table) and fetching the
  right bucket returns the error \<open>err\<close>. Then Join returns \<open>err\<close> with no channel, context
  or group and with the cleanup callback, and before that it has called PutPage for the
  left bucket's page on the left pager: the left pager it leaves is the result of this
  call, and the page's pin count is one less than after the fetch.
\<close>

theorem Join_right_fetch_failure:
  assumes "buildLeft fsi = (Inr (leftIndex, ln), fsl)"
    and "buildRight fsl = (Inr (rightIndex, rn), fsr)"
    and "GetBuckets (fst (equalize leftIndex rightIndex)) = ls1 @ lpn # ls2"
    and "GetBuckets (snd (equalize leftIndex rightIndex)) = rs1 @ rpn # rs2"
    and "length ls1 = length rs1"
    and "probe_loop fetch ls1 rs1
           (probe_init (fst (equalize leftIndex rightIndex)) (snd (equalize leftIndex rightIndex)))
         = Inr st"
    and "seenList st (lpn, rpn) = None"
    and "fetch (leftHashTable st) lpn = (Inr lB, lt)"
    and "put_ready (tpager lt) lB"
    and "fetch (rightHashTable st) rpn = (Inl err, rt)"
    and "\<not> is_panic (Some err)"
  shows "jerr (Join fetch can hclose buildLeft buildRight fsi) = Some err
       \<and> cleanup (Join fetch can hclose buildLeft buildRight fsi) = Some (ln, rn)
       \<and> \<not> handles (Join fetch can hclose buildLeft buildRight fsi)
       \<and> jtables (Join fetch can hclose buildLeft buildRight fsi)
           = Some (lt\<lparr>tpager := snd (PutPage (tpager lt) lB)\<rparr>, rt)
       \<and> pinCount (frames (snd (PutPage (tpager lt) lB)) ! lB)
           = pinCount (frames (tpager lt) ! lB) - 1
       \<and> spawned (Join fetch can hclose buildLeft buildRight fsi) = tasks st"
proof -
  let ?lt0 = "fst (equalize leftIndex rightIndex)"
  let ?rt0 = "snd (equalize leftIndex rightIndex)"
  let ?st' = "st\<lparr>seenList := (seenList st)((lpn, rpn) \<mapsto> True),
                  leftHashTable := lt\<lparr>tpager := snd (PutPage (tpager lt) lB)\<rparr>,
                  rightHashTable := rt\<rparr>"
  have pp: "probe_pair fetch lpn rpn st = Inl (err, ?st')"
    by (rule probe_pair_right_fails [OF assms(8,10,11,9)])
  have "probe_loop fetch (GetBuckets ?lt0) (GetBuckets ?rt0) (probe_init ?lt0 ?rt0)
          = probe_loop fetch (lpn # ls2) (rpn # rs2) st"
    unfolding assms(3,4) by (rule probe_loop_append [OF assms(5,6)])
  also have "\<dots> = Inl (err, ?st')"
    using assms(7) pp by simp
  finally have loop: "probe_loop fetch (GetBuckets ?lt0) (GetBuckets ?rt0) (probe_init ?lt0 ?rt0)
          = Inl (err, ?st')" .
  from assms(9) have "lB < length (frames (tpager lt))"
    by (simp add: put_ready_def)
  then have pc: "pinCount (frames (snd (PutPage (tpager lt) lB)) ! lB)
           = pinCount (frames (tpager lt) ! lB) - 1"
    by (rule PutPage_pinCount)
  have "Join fetch can hclose buildLeft buildRight fsi = probe_phase fetch ln rn fsr ?lt0 ?rt0"
    using assms(1,2) by (simp add: Join_def)
  then show ?thesis using loop assms(11) pc
    by (simp add: probe_phase_def)
qed

lemma equalize_samples: "equalize table_aliased table_other = (table_aliased, table_other)"
  by (subst equalize.simps) (simp add: GetDepth_def table_aliased_def table_other_def)

text \<open>
  The witness: the first slot of the walk. Bucket page 0 of the left table is fetched and
  has two pins then; bucket page 1 of the right table cannot be fetched.
\<close>

theorem Join_right_fetch_failure_witness:
  "fst (fetch_sample table_aliased 0) = Inr 0
   \<and> map pinCount (frames (tpager (snd (fetch_sample table_aliased 0)))) = [2]
   \<and> fst (fetch_sample table_other 1) = Inl ErrRanOutOfPages
   \<and> jerr (Join fetch_sample can_all hclose_sample build_sample_left build_sample_right {})
       = Some ErrRanOutOfPages
   \<and> cleanup (Join fetch_sample can_all hclose_sample build_sample_left build_sample_right {})
       = Some (''/tmp/1.db'', ''/tmp/2.db'')
   \<and> map_option (\<lambda>(l, r). map pinCount (frames (tpager l)))
        (jtables (Join fetch_sample can_all hclose_sample build_sample_left build_sample_right {}))
       = Some [1]"
proof -
  let ?lt = "snd (fetch_sample table_aliased 0)"
  have a1: "build_sample_left {} = (Inr (table_aliased, ''/tmp/1.db''), {''/tmp/1.db''})"
    by (simp add: build_sample_left_def)
  have a2: "build_sample_right {''/tmp/1.db''} = (Inr (table_other, ''/tmp/2.db''), {''/tmp/2.db'', ''/tmp/1.db''})"
    by (simp add: build_sample_right_def)
  have a3: "GetBuckets (fst (equalize table_aliased table_other)) = [] @ 0 # [0]"
    and a4: "GetBuckets (snd (equalize table_aliased table_other)) = [] @ 1 # [1]"
    unfolding equalize_samples
    by (simp_all add: GetBuckets_def table_aliased_def table_other_def)
  have a5: "length ([]::int list) = length ([]::int list)" by simp
  have a6: "probe_loop fetch_sample [] []
           (probe_init (fst (equalize table_aliased table_other)) (snd (equalize table_aliased table_other)))
         = Inr (probe_init table_aliased table_other)"
    by (simp add: equalize_samples)
  have a7: "seenList (probe_init table_aliased table_other) (0, 1) = None"
    by (simp add: probe_init_def)
  have a8: "fetch_sample (leftHashTable (probe_init table_aliased table_other)) 0 = (Inr 0, ?lt)"
    by (simp add: probe_init_def fetch_sample_def)
  have a9: "put_ready (tpager ?lt) 0"
    by (simp add: put_ready_def join_defs)
  have a10: "fetch_sample (rightHashTable (probe_init table_aliased table_other)) 1
               = (Inl ErrRanOutOfPages, table_other)"
    by (simp add: probe_init_def fetch_sample_def)
  have a11: "\<not> is_panic (Some ErrRanOutOfPages)"
    by (simp add: is_panic_def)
  have b: "map pinCount (frames (tpager ?lt)) = [2]"
    "length (frames (snd (PutPage (tpager ?lt) 0))) = 1"
    "pinCount (frames (tpager ?lt) ! 0) = 2"
    by (simp_all add: join_defs PutPage_def Put_def Let_def)
  from Join_right_fetch_failure [where buildLeft = build_sample_left
      and buildRight = build_sample_right and fsi = "{}" and hclose = hclose_sample
      and can = can_all and fetch = fetch_sample,
      OF a1 a2 a3 a4 a5 a6 a7 a8 a9 a10 a11] b(3)
  have c: "jerr (Join fetch_sample can_all hclose_sample build_sample_left build_sample_right {})
             = Some ErrRanOutOfPages"
    "cleanup (Join fetch_sample can_all hclose_sample build_sample_left build_sample_right {})
       = Some (''/tmp/1.db'', ''/tmp/2.db'')"
    "jtables (Join fetch_sample can_all hclose_sample build_sample_left build_sample_right {})
       = Some (?lt\<lparr>tpager := snd (PutPage (tpager ?lt) 0)\<rparr>, table_other)"
    "pinCount (frames (snd (PutPage (tpager ?lt) 0)) ! 0) = 1"
    by simp_all
  have d: "map pinCount (frames (snd (PutPage (tpager ?lt) 0))) = [1]"
    using b(2) c(4)
    by (cases "frames (snd (PutPage (tpager ?lt) 0))") simp_all
  have e: "fst (fetch_sample table_aliased 0) = Inr 0"
    "fst (fetch_sample table_other 1) = Inl ErrRanOutOfPages"
    by (simp_all add: fetch_sample_def)
  from b(1) c d e show ?thesis by simp
qed

end
